theory Spec2Isabelle
  imports Complex_Main "HOL-Library.Multiset"
begin

section \<open>A two-dimensional k-d tree: the data model of \<open>kdtree.js\<close>\<close>

text \<open>
  The JavaScript numbers of the source are idealised as real numbers (no NaN, no infinity,
  no rounding), as the data model of the specification does. A point is the object
  \<open>{x, y}\<close>; a bounding rectangle the object \<open>{minX, maxX, minY, maxY}\<close>. A node reference
  is either \<open>null\<close> or a \<open>KDTreeNode\<close> object holding \<open>point\<close>, \<open>boundingRect\<close>,
  \<open>leftChild\<close> and \<open>rightChild\<close>. Arrays are lists; where a function changes an array
  of its caller, the contents after the call are returned with the result. An exception
  of the runtime is the left injection of a sum. The private functions of the source
  end in an underscore (\<open>createKDTree_\<close>, \<open>getNearestNeighbours_\<close>, \<open>insertResult_\<close>); here
  they end in a prime.
\<close>

definition AXIS_X :: nat where "AXIS_X = 0"
definition AXIS_Y :: nat where "AXIS_Y = 1"
definition K :: nat where "K = 2"

record point =
  x :: real
  y :: real

record rect =
  minX :: real
  maxX :: real
  minY :: real
  maxY :: real

datatype node =
    Null
  | KDTreeNode (point: point) (boundingRect: rect) (leftChild: node) (rightChild: node)

record kdtree =
  rootNode :: node

text \<open>The only failure the source can raise: reading a property of \<open>null\<close> or \<open>undefined\<close>.\<close>

datatype error = TypeError

text \<open>An entry of the \<open>results\<close> array: the object \<open>{node, distance}\<close>.\<close>

record result =
  node :: node
  distance :: real

section \<open>Construction\<close>

text \<open>
  \<open>points.sort(function (a, b) {...})\<close> with the comparator \<open>a.x - b.x\<close> (or \<open>a.y - b.y\<close>):
  an ascending sort by the coordinate on the axis. The sort is taken to be stable, as
  ECMAScript 2019 requires and the specification asks for.
\<close>

definition axisCoord :: "nat \<Rightarrow> point \<Rightarrow> real" where
  "axisCoord axis a = (if axis = AXIS_X then x a else y a)"

definition sortPoints :: "nat \<Rightarrow> point list \<Rightarrow> point list" where
  "sortPoints axis points = sort_key (axisCoord axis) points"

definition leftChildBoundingRect :: "nat \<Rightarrow> point \<Rightarrow> rect \<Rightarrow> rect" where
  "leftChildBoundingRect axis pt bounds =
     \<lparr> minX = minX bounds,
       maxX = (if axis = AXIS_X then x pt else maxX bounds),
       minY = minY bounds,
       maxY = (if axis = AXIS_Y then y pt else maxY bounds) \<rparr>"

definition rightChildBoundingRect :: "nat \<Rightarrow> point \<Rightarrow> rect \<Rightarrow> rect" where
  "rightChildBoundingRect axis pt bounds =
     \<lparr> minX = (if axis = AXIS_X then x pt else minX bounds),
       maxX = maxX bounds,
       minY = (if axis = AXIS_Y then y pt else minY bounds),
       maxY = maxY bounds \<rparr>"

text \<open>
  \<open>createKDTree_(points, depth, boundingRect)\<close>. The array \<open>points\<close> is sorted in place, so
  the call has an effect on its argument: the function returns the contents of that array
  after the call together with the node. The two recursive calls receive fresh arrays
  (\<open>slice\<close> copies), so what they do to their argument is dropped.
\<close>

function (domintros) createKDTree' :: "point list \<Rightarrow> nat \<Rightarrow> rect \<Rightarrow> point list \<times> node" where
  "createKDTree' points depth bounds =
     (if length points = 0 then (points, Null)
      else
        let axis = depth mod K;
            sortedPoints = sortPoints axis points;
            medianIndex = length sortedPoints div 2;
            pt = sortedPoints ! medianIndex;
            lc = snd (createKDTree' (take medianIndex sortedPoints) (depth + 1)
                               (leftChildBoundingRect axis pt bounds));
            rc = snd (createKDTree' (drop (medianIndex + 1) sortedPoints) (depth + 1)
                               (rightChildBoundingRect axis pt bounds))
        in (sortedPoints, KDTreeNode pt bounds lc rc))"
  by pat_completeness auto
termination
  by (relation "measure (\<lambda>(points, depth, bounds). length points)")
     (auto simp: sortPoints_def)

declare createKDTree'.simps [simp del]

text \<open>The loop of the constructor, one iteration per point, from the left.\<close>

definition growBoundingRect :: "point \<Rightarrow> rect \<Rightarrow> rect" where
  "growBoundingRect p bounds =
     \<lparr> minX = min (minX bounds) (x p),
       maxX = max (maxX bounds) (x p),
       minY = min (minY bounds) (y p),
       maxY = max (maxY bounds) (y p) \<rparr>"

definition initialBoundingRect :: rect where
  "initialBoundingRect =
     \<lparr> minX = 2 ^ 31 - 1, maxX = - (2 ^ 31), minY = 2 ^ 31 - 1, maxY = - (2 ^ 31) \<rparr>"

text \<open>
  \<open>new KDTree(points)\<close>: the first component is the caller's array after the call, the
  second the new object.
\<close>

definition KDTree :: "point list \<Rightarrow> point list \<times> kdtree" where
  "KDTree points =
     (let bounds = fold growBoundingRect points initialBoundingRect;
          built = createKDTree' points 0 bounds
      in (fst built, \<lparr> rootNode = snd built \<rparr>))"

section \<open>Search\<close>

definition getSquaredEuclidianDistance :: "real \<Rightarrow> real \<Rightarrow> real \<Rightarrow> real \<Rightarrow> real" where
  "getSquaredEuclidianDistance x1 y1 x2 y2 =
     (let dx = x1 - x2; dy = y1 - y2 in dx * dx + dy * dy)"

text \<open>
  The \<open>for\<close> loop of \<open>insertResult_\<close>: \<open>insertIndex\<close> runs down from \<open>results.length - 1\<close>
  and the loop stops at the first entry whose distance is smaller than the new one, or
  at \<open>-1\<close>.
\<close>

function scanInsertIndex :: "result list \<Rightarrow> result \<Rightarrow> int \<Rightarrow> int" where
  "scanInsertIndex results insertNode insertIndex =
     (if insertIndex \<ge> 0 then
        (if distance insertNode > distance (results ! nat insertIndex) then insertIndex
         else scanInsertIndex results insertNode (insertIndex - 1))
      else insertIndex)"
  by pat_completeness auto
termination
  by (relation "measure (\<lambda>(results, insertNode, insertIndex). nat (insertIndex + 1))") auto

declare scanInsertIndex.simps [simp del]

text \<open>\<open>results.splice(i, 0, e)\<close> for \<open>0 \<le> i \<le> results.length\<close>.\<close>

definition splice0 :: "'a list \<Rightarrow> nat \<Rightarrow> 'a \<Rightarrow> 'a list" where
  "splice0 results i e = take i results @ e # drop i results"

definition insertResult' :: "result list \<Rightarrow> result \<Rightarrow> int \<Rightarrow> result list" where
  "insertResult' results insertNode maxResults =
     (let insertIndex = scanInsertIndex results insertNode (int (length results) - 1);
          results1 = splice0 results (nat (insertIndex + 1)) insertNode
      in if int (length results1) > maxResults then butlast results1 else results1)"

text \<open>
  The point \<open>(toX, toY)\<close> of the opposite child's rectangle and its squared distance to the
  search point, as computed before the second recursive call.
\<close>

definition oppositeSquaredDist :: "nat \<Rightarrow> point \<Rightarrow> point \<Rightarrow> rect \<Rightarrow> real" where
  "oppositeSquaredDist axis searchCoord pt oppositeRect =
     (if axis = AXIS_X then
        (let toX = x pt;
             toY = (if y searchCoord < minY oppositeRect then minY oppositeRect
                    else if y searchCoord > maxY oppositeRect then maxY oppositeRect
                    else y searchCoord)
         in getSquaredEuclidianDistance (x searchCoord) (y searchCoord) toX toY)
      else
        (let toY = y pt;
             toX = (if x searchCoord < minX oppositeRect then minX oppositeRect
                    else if x searchCoord > maxX oppositeRect then maxX oppositeRect
                    else x searchCoord)
         in getSquaredEuclidianDistance (x searchCoord) (y searchCoord) toX toY))"

text \<open>
  The optional argument \<open>opt_consideredPoints\<close>: \<open>undefined\<close>, or an array that
  receives every point the search visits. \<open>opt_consideredPoints.push(p)\<close>, done only
  if the argument is defined:
\<close>

definition pushConsidered :: "point list option \<Rightarrow> point \<Rightarrow> point list option" where
  "pushConsidered opt_consideredPoints p =
     (case opt_consideredPoints of None \<Rightarrow> None | Some ps \<Rightarrow> Some (ps @ [p]))"

text \<open>
  \<open>getNearestNeighbours_(currNode, searchCoord, depth, results, maxResults,
  opt_consideredPoints)\<close>. The arrays \<open>results\<close> and \<open>opt_consideredPoints\<close> are changed
  in place, so they are threaded through the calls and returned. Reading
  \<open>currNode.point\<close> of \<open>null\<close> and reading \<open>.distance\<close> of \<open>results[-1]\<close> raise a
  TypeError.
\<close>

function getNearestNeighbours' ::
  "node \<Rightarrow> point \<Rightarrow> nat \<Rightarrow> result list \<Rightarrow> int \<Rightarrow> point list option
     \<Rightarrow> error + result list \<times> point list option" where
  "getNearestNeighbours' Null searchCoord depth results maxResults opt_consideredPoints =
     Inl TypeError"
| "getNearestNeighbours' (KDTreeNode pt br lc rc) searchCoord depth results maxResults
       opt_consideredPoints =
     (let considered1 = pushConsidered opt_consideredPoints pt;
          axis = depth mod K;
          currNodeDistanceToDesiredCoord =
            getSquaredEuclidianDistance (x searchCoord) (y searchCoord) (x pt) (y pt);
          bestSeen = \<lparr> node = KDTreeNode pt br lc rc,
                       distance = currNodeDistanceToDesiredCoord \<rparr>;
          results1 = insertResult' results bestSeen maxResults;
          searchLeft = axisCoord axis searchCoord < axisCoord axis pt;
          targetChild = (if searchLeft then lc else rc);
          oppositeChild = (if searchLeft then rc else lc)
      in case (if targetChild \<noteq> Null
               then getNearestNeighbours' targetChild searchCoord (depth + 1) results1 maxResults
                      considered1
               else Inr (results1, considered1)) of
           Inl e \<Rightarrow> Inl e
         | Inr (results2, considered2) \<Rightarrow>
             if oppositeChild \<noteq> Null then
               (if results2 = [] then Inl TypeError
                else if oppositeSquaredDist axis searchCoord pt (boundingRect oppositeChild)
                          \<le> distance (last results2)
                then getNearestNeighbours' oppositeChild searchCoord (depth + 1) results2 maxResults
                       considered2
                else Inr (results2, considered2))
             else Inr (results2, considered2))"
  by pat_completeness auto
termination
  by (relation "measure (\<lambda>(currNode, searchCoord, depth, results, maxResults, considered).
                  size currNode)")
     (auto split: if_splits)

declare getNearestNeighbours'.simps(2) [simp del]

text \<open>
  The two public queries. Each returns its value together with the contents of the
  caller's \<open>opt_consideredPoints\<close> array after the call.
\<close>

definition getNearestNeighbour ::
  "kdtree \<Rightarrow> point \<Rightarrow> point list option \<Rightarrow> error + point option \<times> point list option" where
  "getNearestNeighbour this searchCoord opt_consideredPoints =
     (case getNearestNeighbours' (rootNode this) searchCoord 0 [] 1 opt_consideredPoints of
        Inl e \<Rightarrow> Inl e
      | Inr (results, considered) \<Rightarrow>
          Inr (if length results = 0 then None else Some (point (node (results ! 0))),
               considered))"

definition getNearestNeighbours ::
  "kdtree \<Rightarrow> point \<Rightarrow> int \<Rightarrow> point list option \<Rightarrow> error + point list \<times> point list option" where
  "getNearestNeighbours this searchCoord maxResults opt_consideredPoints =
     (case getNearestNeighbours' (rootNode this) searchCoord 0 [] maxResults
             opt_consideredPoints of
        Inl e \<Rightarrow> Inl e
      | Inr (results, considered) \<Rightarrow> Inr (map (\<lambda>r. point (node r)) results, considered))"

section \<open>Notions used to state the properties\<close>

text \<open>The points stored in a subtree, and the nodes of a subtree with their depths.\<close>

fun nodePoints :: "node \<Rightarrow> point list" where
  "nodePoints Null = []"
| "nodePoints (KDTreeNode pt br lc rc) = nodePoints lc @ pt # nodePoints rc"


text \<open>The entries that a visit of every node of a subtree would offer to the result list.\<close>

fun nodeResults :: "point \<Rightarrow> node \<Rightarrow> result list" where
  "nodeResults searchCoord Null = []"
| "nodeResults searchCoord (KDTreeNode pt br lc rc) =
     nodeResults searchCoord lc @
     \<lparr> node = KDTreeNode pt br lc rc,
       distance = getSquaredEuclidianDistance (x searchCoord) (y searchCoord) (x pt) (y pt) \<rparr> #
     nodeResults searchCoord rc"

definition insideRect :: "rect \<Rightarrow> point \<Rightarrow> bool" where
  "insideRect r a \<longleftrightarrow> minX r \<le> x a \<and> x a \<le> maxX r \<and> minY r \<le> y a \<and> y a \<le> maxY r"

text \<open>Containment of rectangles: the four bound comparisons.\<close>

definition containsRect :: "rect \<Rightarrow> rect \<Rightarrow> bool" where
  "containsRect outer inner \<longleftrightarrow>
     minX outer \<le> minX inner \<and> maxX inner \<le> maxX outer \<and>
     minY outer \<le> minY inner \<and> maxY inner \<le> maxY outer"

text \<open>
  Clipping a rectangle on one axis at a coordinate value: the upper bound of that axis
  (for a left child) or its lower bound (for a right child) is replaced, nothing else.
\<close>

definition clipMax :: "nat \<Rightarrow> real \<Rightarrow> rect \<Rightarrow> rect" where
  "clipMax axis v r = (if axis = AXIS_X then r\<lparr>maxX := v\<rparr> else r\<lparr>maxY := v\<rparr>)"

definition clipMin :: "nat \<Rightarrow> real \<Rightarrow> rect \<Rightarrow> rect" where
  "clipMin axis v r = (if axis = AXIS_X then r\<lparr>minX := v\<rparr> else r\<lparr>minY := v\<rparr>)"

text \<open>
  The rectangle invariant of a subtree whose root lies at depth \<open>d\<close>: every node's
  rectangle contains the rectangle of each child it has, and that child's rectangle is the
  node's rectangle clipped on the axis \<open>d mod 2\<close> at the node's point.
\<close>

fun rectInvariant :: "node \<Rightarrow> nat \<Rightarrow> bool" where
  "rectInvariant Null d = True"
| "rectInvariant (KDTreeNode pt br lc rc) d =
     ((lc \<noteq> Null \<longrightarrow>
         containsRect br (boundingRect lc) \<and>
         boundingRect lc = clipMax (d mod 2) (axisCoord (d mod 2) pt) br) \<and>
      (rc \<noteq> Null \<longrightarrow>
         containsRect br (boundingRect rc) \<and>
         boundingRect rc = clipMin (d mod 2) (axisCoord (d mod 2) pt) br) \<and>
      rectInvariant lc (d + 1) \<and> rectInvariant rc (d + 1))"

text \<open>
  What the search relies on, for a subtree whose root lies at depth \<open>d\<close>: a node's point
  lies in the node's rectangle, the points below a child lie in the rectangle the builder
  derives for that child, and a child that exists carries that rectangle.
\<close>

fun searchInvariant :: "node \<Rightarrow> nat \<Rightarrow> bool" where
  "searchInvariant Null d = True"
| "searchInvariant (KDTreeNode pt br lc rc) d =
     (insideRect br pt \<and>
      (\<forall>a \<in> set (nodePoints lc). insideRect (leftChildBoundingRect (d mod K) pt br) a) \<and>
      (\<forall>a \<in> set (nodePoints rc). insideRect (rightChildBoundingRect (d mod K) pt br) a) \<and>
      (lc \<noteq> Null \<longrightarrow> boundingRect lc = leftChildBoundingRect (d mod K) pt br) \<and>
      (rc \<noteq> Null \<longrightarrow> boundingRect rc = rightChildBoundingRect (d mod K) pt br) \<and>
      searchInvariant lc (d + 1) \<and> searchInvariant rc (d + 1))"

text \<open>The squared distance of a stored point to the search point.\<close>

definition squaredDistance :: "point \<Rightarrow> point \<Rightarrow> real" where
  "squaredDistance searchCoord a =
     getSquaredEuclidianDistance (x searchCoord) (y searchCoord) (x a) (y a)"





text \<open>
  The insertion policy in the words of the specification: scanning backward from the worst
  entry, the new entry goes immediately after the first entry whose distance is at most
  the new entry's distance; then the last entry is dropped if the list is longer than
  \<open>k\<close>.
\<close>

function specScanInsertIndex :: "result list \<Rightarrow> result \<Rightarrow> int \<Rightarrow> int" where
  "specScanInsertIndex results insertNode insertIndex =
     (if insertIndex \<ge> 0 then
        (if distance (results ! nat insertIndex) \<le> distance insertNode then insertIndex
         else specScanInsertIndex results insertNode (insertIndex - 1))
      else insertIndex)"
  by pat_completeness auto
termination
  by (relation "measure (\<lambda>(results, insertNode, insertIndex). nat (insertIndex + 1))") auto

declare specScanInsertIndex.simps [simp del]

definition specInsertResult :: "result list \<Rightarrow> result \<Rightarrow> int \<Rightarrow> result list" where
  "specInsertResult results insertNode k =
     (let insertIndex = specScanInsertIndex results insertNode (int (length results) - 1);
          results1 = splice0 results (nat (insertIndex + 1)) insertNode
      in if int (length results1) > k then butlast results1 else results1)"

text \<open>
  Whether the search from a node, on its way down the target children, comes to a node
  that has an opposite child.
\<close>

fun meetsOpposite :: "node \<Rightarrow> point \<Rightarrow> nat \<Rightarrow> bool" where
  "meetsOpposite Null searchCoord depth = False"
| "meetsOpposite (KDTreeNode pt br lc rc) searchCoord depth =
     (let axis = depth mod K;
          searchLeft = axisCoord axis searchCoord < axisCoord axis pt;
          targetChild = (if searchLeft then lc else rc);
          oppositeChild = (if searchLeft then rc else lc)
      in meetsOpposite targetChild searchCoord (depth + 1) \<or> oppositeChild \<noteq> Null)"


section \<open>Construction: basic facts\<close>

lemmas consts_defs = AXIS_X_def AXIS_Y_def K_def

lemma createKDTree'_Nil [simp]: "createKDTree' [] depth bounds = ([], Null)"
  by (simp add: createKDTree'.simps)

lemma createKDTree'_fst:
  "fst (createKDTree' points depth bounds) = sortPoints (depth mod K) points"
  by (cases points) (simp_all add: createKDTree'.simps Let_def sortPoints_def)

lemma createKDTree'_snd:
  "points \<noteq> [] \<Longrightarrow>
   snd (createKDTree' points depth bounds) =
     (let sortedPoints = sortPoints (depth mod K) points;
          medianIndex = length sortedPoints div 2;
          pt = sortedPoints ! medianIndex
      in KDTreeNode pt bounds
           (snd (createKDTree' (take medianIndex sortedPoints) (depth + 1)
                   (leftChildBoundingRect (depth mod K) pt bounds)))
           (snd (createKDTree' (drop (medianIndex + 1) sortedPoints) (depth + 1)
                   (rightChildBoundingRect (depth mod K) pt bounds))))"
  by (subst createKDTree'.simps) (simp add: Let_def)

section \<open>Querying the empty tree\<close>

text \<open>
  Claim C2. The specification asks that a query on the tree built from the empty sequence
  is a "no results" outcome: \<open>getNearestNeighbour\<close> returns none and
  \<open>getNearestNeighbours\<close> the empty sequence. The code does not do this: the root is
  \<open>null\<close>, and the search reads \<open>currNode.point\<close> of it at once, so both queries raise
  a TypeError, for every search point and every \<open>k\<close>.
\<close>

theorem empty_tree_query_fails:
  "getNearestNeighbour (snd (KDTree [])) searchCoord opt_consideredPoints = Inl TypeError \<and>
   getNearestNeighbours (snd (KDTree [])) searchCoord k opt_consideredPoints = Inl TypeError"
  by (simp add: KDTree_def getNearestNeighbour_def getNearestNeighbours_def)

section \<open>The effect of construction on the caller's array\<close>

text \<open>
  Claim C4 as stated (construction leaves the caller's sequence unchanged) fails: the
  two-point input \<open>[(1,0), (0,0)]\<close> is \<open>[(0,0), (1,0)]\<close> after the call.
\<close>

theorem input_sorted_in_place_counterexample:
  "fst (KDTree [\<lparr>x = 1, y = 0\<rparr>, \<lparr>x = 0, y = 0\<rparr>]) \<noteq> [\<lparr>x = 1, y = 0\<rparr>, \<lparr>x = 0, y = 0\<rparr>]"
  by code_simp

text \<open>
  Claim C4, amended. Construction sorts the caller's array in place at the top level: after
  the call it holds the same elements, stably sorted ascending by \<open>x\<close>; the sorting done
  in the recursive calls works on copies and is not visible. The array is unchanged if it
  was sorted ascending by \<open>x\<close> before the call, and only then.
\<close>

theorem input_sorted_in_place:
  "fst (KDTree points) = sort_key x points \<and>
   mset (fst (KDTree points)) = mset points \<and>
   (sorted (map x points) \<longrightarrow> fst (KDTree points) = points) \<and>
   (fst (KDTree points) = points \<longrightarrow> sorted (map x points))"
proof -
  have "axisCoord (0 mod K) = x"
    by (rule ext) (simp add: axisCoord_def consts_defs)
  then have eq: "fst (KDTree points) = sort_key x points"
    by (simp add: KDTree_def Let_def createKDTree'_fst sortPoints_def)
  have "sorted (map x points)" if "sort_key x points = points"
    using sorted_sort_key [of x points] that by simp
  with eq show ?thesis
    by (simp add: sort_key_id_if_sorted)
qed

theorem input_sorted_in_place_witness:
  "sorted (map x [\<lparr>x = 0, y = 3\<rparr>, \<lparr>x = 1, y = 2\<rparr>]) \<and>
   fst (KDTree [\<lparr>x = 0, y = 3\<rparr>, \<lparr>x = 1, y = 2\<rparr>]) = [\<lparr>x = 0, y = 3\<rparr>, \<lparr>x = 1, y = 2\<rparr>]"
  using input_sorted_in_place [of "[\<lparr>x = 0, y = 3\<rparr>, \<lparr>x = 1, y = 2\<rparr>]"] by simp

section \<open>The root rectangle\<close>

text \<open>
  Claim C7. The rectangle of the root should be the bounding rectangle of the input: the
  minimum and maximum per axis. The constructor starts its running minima at
  \<open>2^31 - 1\<close> and its running maxima at \<open>-2^31\<close>, so for the single point \<open>(2^31, 0)\<close>
  the root's \<open>minX\<close> is \<open>2^31 - 1\<close>, below the least \<open>x\<close> of the input.
\<close>

theorem root_rect_beyond_sentinel:
  "minX (boundingRect (rootNode (snd (KDTree [\<lparr>x = 2 ^ 31, y = 0\<rparr>])))) = 2 ^ 31 - 1 \<and>
   Min (set (map x [\<lparr>x = 2 ^ 31, y = 0\<rparr>])) = 2 ^ 31"
  by code_simp

section \<open>Termination of construction\<close>

text \<open>
  Claim C10. Construction terminates on every finite input: every argument triple lies in
  the domain on which the recursion of \<open>createKDTree_\<close> is well-founded, and for a
  non-empty array the two slices handed to the recursive calls (before the median index,
  and after it) are strictly shorter than the array; together with the median element
  they make up the sorted array.
\<close>

theorem createKDTree_terminates:
  "createKDTree'_dom (points, depth, bounds) \<and>
   (points \<noteq> [] \<longrightarrow>
      length (take (length (sortPoints (depth mod K) points) div 2)
                (sortPoints (depth mod K) points)) < length points \<and>
      length (drop (length (sortPoints (depth mod K) points) div 2 + 1)
                (sortPoints (depth mod K) points)) < length points \<and>
      take (length (sortPoints (depth mod K) points) div 2) (sortPoints (depth mod K) points) @
        sortPoints (depth mod K) points ! (length (sortPoints (depth mod K) points) div 2) #
        drop (length (sortPoints (depth mod K) points) div 2 + 1)
          (sortPoints (depth mod K) points)
      = sortPoints (depth mod K) points)"
proof
  show "createKDTree'_dom (points, depth, bounds)"
  proof (induction points arbitrary: depth bounds rule: length_induct)
    case (1 points)
    show ?case
    proof (rule createKDTree'.domintros)
      assume "points \<noteq> []"
      then have "length (take (length (sortPoints (depth mod K) points) div 2)
                   (sortPoints (depth mod K) points)) < length points"
        by (simp add: sortPoints_def)
      with 1 show "createKDTree'_dom
          (take (length (sortPoints (depth mod K) points) div 2) (sortPoints (depth mod K) points),
           Suc depth,
           leftChildBoundingRect (depth mod K)
             (sortPoints (depth mod K) points ! (length (sortPoints (depth mod K) points) div 2))
             bounds)"
        by blast
    next
      assume "points \<noteq> []"
      then have "length (drop (Suc (length (sortPoints (depth mod K) points) div 2))
                   (sortPoints (depth mod K) points)) < length points"
        by (simp add: sortPoints_def)
      with 1 show "createKDTree'_dom
          (drop (Suc (length (sortPoints (depth mod K) points) div 2))
             (sortPoints (depth mod K) points),
           Suc depth,
           rightChildBoundingRect (depth mod K)
             (sortPoints (depth mod K) points ! (length (sortPoints (depth mod K) points) div 2))
             bounds)"
        by blast
    qed
  qed
next
  have "points \<noteq> [] \<Longrightarrow> length points div 2 < length (sortPoints (depth mod K) points)"
    by (simp add: sortPoints_def)
  then show "points \<noteq> [] \<longrightarrow>
      length (take (length (sortPoints (depth mod K) points) div 2)
                (sortPoints (depth mod K) points)) < length points \<and>
      length (drop (length (sortPoints (depth mod K) points) div 2 + 1)
                (sortPoints (depth mod K) points)) < length points \<and>
      take (length (sortPoints (depth mod K) points) div 2) (sortPoints (depth mod K) points) @
        sortPoints (depth mod K) points ! (length (sortPoints (depth mod K) points) div 2) #
        drop (length (sortPoints (depth mod K) points) div 2 + 1)
          (sortPoints (depth mod K) points)
      = sortPoints (depth mod K) points"
    by (auto simp: sortPoints_def id_take_nth_drop [symmetric])
qed

theorem createKDTree_terminates_witness:
  "createKDTree'_dom ([\<lparr>x = 2, y = 0\<rparr>, \<lparr>x = 1, y = 0\<rparr>, \<lparr>x = 3, y = 0\<rparr>], 0, initialBoundingRect) \<and>
   [\<lparr>x = 2, y = 0\<rparr>, \<lparr>x = 1, y = 0\<rparr>, \<lparr>x = 3, y = 0\<rparr>] \<noteq> [] \<and>
   sortPoints (0 mod K) [\<lparr>x = 2, y = 0\<rparr>, \<lparr>x = 1, y = 0\<rparr>, \<lparr>x = 3, y = 0\<rparr>] =
     [\<lparr>x = 1, y = 0\<rparr>] @ \<lparr>x = 2, y = 0\<rparr> # [\<lparr>x = 3, y = 0\<rparr>]"
  using createKDTree_terminates
          [of "[\<lparr>x = 2, y = 0\<rparr>, \<lparr>x = 1, y = 0\<rparr>, \<lparr>x = 3, y = 0\<rparr>]" 0 initialBoundingRect]
  by (simp add: sortPoints_def axisCoord_def consts_defs)

section \<open>Insertion into the result list\<close>

lemma scanInsertIndex_range:
  "- 1 \<le> i \<Longrightarrow> - 1 \<le> scanInsertIndex results e i \<and> scanInsertIndex results e i \<le> i"
proof (induction results e i rule: scanInsertIndex.induct)
  case (1 results e i)
  then show ?case
    by (subst scanInsertIndex.simps, subst (2) scanInsertIndex.simps) auto
qed

lemma scanInsertIndex_stop:
  "0 \<le> scanInsertIndex results e i \<Longrightarrow>
   distance (results ! nat (scanInsertIndex results e i)) < distance e"
proof (induction results e i rule: scanInsertIndex.induct)
  case (1 results e i)
  consider (neg) "i < 0" | (hit) "0 \<le> i" "distance e > distance (results ! nat i)"
    | (miss) "0 \<le> i" "\<not> distance e > distance (results ! nat i)"
    by linarith
  then show ?case
  proof cases
    case neg
    then have "scanInsertIndex results e i = i" by (subst scanInsertIndex.simps) simp
    with neg "1.prems" show ?thesis by simp
  next
    case hit
    then have "scanInsertIndex results e i = i" by (subst scanInsertIndex.simps) simp
    with hit show ?thesis by simp
  next
    case miss
    then have "scanInsertIndex results e i = scanInsertIndex results e (i - 1)"
      by (subst scanInsertIndex.simps) simp
    with miss "1.IH" "1.prems" show ?thesis by simp
  qed
qed

lemma scanInsertIndex_skipped:
  "scanInsertIndex results e i < m \<Longrightarrow> m \<le> i \<Longrightarrow> distance e \<le> distance (results ! nat m)"
proof (induction results e i rule: scanInsertIndex.induct)
  case (1 results e i)
  show ?case
  proof (cases "m = i")
    case True
    with "1.prems" show ?thesis
      by (subst (asm) scanInsertIndex.simps) (auto split: if_splits)
  next
    case False
    with "1.prems" have "0 \<le> i" "\<not> distance e > distance (results ! nat i)"
       "scanInsertIndex results e (i - 1) < m"
      by (subst (asm) scanInsertIndex.simps, auto split: if_splits)+
    with "1.IH" False "1.prems" show ?thesis by auto
  qed
qed

lemma insort_key_at:
  "n \<le> length xs \<Longrightarrow> \<forall>i<n. f (xs ! i) < f e \<Longrightarrow>
   \<forall>i. n \<le> i \<and> i < length xs \<longrightarrow> f e \<le> f (xs ! i) \<Longrightarrow>
   insort_key f e xs = take n xs @ e # drop n xs"
proof (induction xs arbitrary: n)
  case Nil
  then show ?case by simp
next
  case (Cons a xs)
  show ?case
  proof (cases n)
    case 0
    with Cons.prems have "f e \<le> f a" by auto
    with 0 show ?thesis by simp
  next
    case (Suc m)
    with Cons.prems have a: "f a < f e" by auto
    have "insort_key f e xs = take m xs @ e # drop m xs"
    proof (rule Cons.IH)
      show "m \<le> length xs" using Cons.prems Suc by simp
      show "\<forall>i<m. f (xs ! i) < f e" using Cons.prems(2) Suc by auto
      show "\<forall>i. m \<le> i \<and> i < length xs \<longrightarrow> f e \<le> f (xs ! i)"
      proof (intro allI impI)
        fix i assume "m \<le> i \<and> i < length xs"
        then have "n \<le> Suc i \<and> Suc i < length (a # xs)" using Suc by simp
        with Cons.prems(3) have "f e \<le> f ((a # xs) ! Suc i)" by blast
        then show "f e \<le> f (xs ! i)" by simp
      qed
    qed
    moreover from a have "\<not> f e \<le> f a" by simp
    ultimately show ?thesis using Suc by simp
  qed
qed

text \<open>The position found by the scan, in a list sorted by distance.\<close>

lemma scan_position:
  fixes e :: result
  assumes "sorted (map distance results)"
  defines "j \<equiv> nat (scanInsertIndex results e (int (length results) - 1) + 1)"
  shows "j \<le> length results"
    and "\<forall>i<j. distance (results ! i) < distance e"
    and "\<forall>i. j \<le> i \<and> i < length results \<longrightarrow> distance e \<le> distance (results ! i)"
proof -
  let ?s = "scanInsertIndex results e (int (length results) - 1)"
  have r: "- 1 \<le> ?s" "?s \<le> int (length results) - 1"
    using scanInsertIndex_range [of "int (length results) - 1" results e] by auto
  then show le: "j \<le> length results" by (simp add: j_def)
  show "\<forall>i<j. distance (results ! i) < distance e"
  proof (intro allI impI)
    fix i assume i: "i < j"
    then have s0: "0 \<le> ?s" and "i \<le> nat ?s" by (auto simp: j_def)
    moreover have "nat ?s < length results" using r s0 by auto
    ultimately have "distance (results ! i) \<le> distance (results ! nat ?s)"
      using assms(1) by (simp add: sorted_iff_nth_mono)
    with scanInsertIndex_stop [OF s0] show "distance (results ! i) < distance e" by simp
  qed
  show "\<forall>i. j \<le> i \<and> i < length results \<longrightarrow> distance e \<le> distance (results ! i)"
  proof (intro allI impI)
    fix i assume "j \<le> i \<and> i < length results"
    then have "?s < int i" "int i \<le> int (length results) - 1"
      using r by (auto simp: j_def)
    from scanInsertIndex_skipped [OF this] show "distance e \<le> distance (results ! i)" by simp
  qed
qed

lemma insertResult'_insort:
  assumes "sorted (map distance results)"
  shows "insertResult' results e k =
      (if int (length results) + 1 > k then butlast (insort_key distance e results)
       else insort_key distance e results)"
proof -
  have "insort_key distance e results =
     splice0 results (nat (scanInsertIndex results e (int (length results) - 1) + 1)) e"
    unfolding splice0_def using scan_position [OF assms, of e] by (intro insort_key_at) auto
  then have eq: "splice0 results (nat (scanInsertIndex results e (int (length results) - 1) + 1)) e
      = insort_key distance e results" by simp
  show ?thesis
    unfolding insertResult'_def Let_def eq by simp
qed

text \<open>
  Claim C6 as stated fails on ties. With one entry at distance 1 in the list and a new
  entry at distance 1 (and \<open>k = 2\<close>), the specification's rule (after the first entry,
  scanning backward, whose distance is at most the new one) puts the new entry last; the
  code puts it first.
\<close>

theorem insertResult_tie_counterexample:
  "insertResult'
     [\<lparr>node = KDTreeNode \<lparr>x = 1, y = 0\<rparr> \<lparr>minX = - 1, maxX = 1, minY = 0, maxY = 0\<rparr> Null Null,
       distance = 1\<rparr>]
     \<lparr>node = KDTreeNode \<lparr>x = - 1, y = 0\<rparr> \<lparr>minX = - 1, maxX = 1, minY = 0, maxY = 0\<rparr> Null Null,
      distance = 1\<rparr> 2
   \<noteq>
   specInsertResult
     [\<lparr>node = KDTreeNode \<lparr>x = 1, y = 0\<rparr> \<lparr>minX = - 1, maxX = 1, minY = 0, maxY = 0\<rparr> Null Null,
       distance = 1\<rparr>]
     \<lparr>node = KDTreeNode \<lparr>x = - 1, y = 0\<rparr> \<lparr>minX = - 1, maxX = 1, minY = 0, maxY = 0\<rparr> Null Null,
      distance = 1\<rparr> 2"
  by code_simp

lemma insertResult'_sorted:
  assumes "sorted (map distance results)"
  shows "sorted (map distance (insertResult' results e k))"
proof -
  have "sorted (map distance (insort_key distance e results))"
    using assms by (simp add: sorted_insort_key)
  moreover from this have "sorted (map distance (butlast (insort_key distance e results)))"
    by (simp add: map_butlast sorted_butlast)
  ultimately show ?thesis
    by (simp add: insertResult'_insort [OF assms])
qed

lemma insertResult'_length:
  assumes "sorted (map distance results)"
  shows "length (insertResult' results e k) =
     (if int (length results) + 1 > k then length results else length results + 1)"
  by (simp add: insertResult'_insort [OF assms])

text \<open>
  Claim C6, amended. For a result list sorted ascending by distance with length at most
  \<open>k\<close>, inserting a new entry places it immediately after the first existing entry
  (scanning backward from the worst) whose distance is strictly smaller than the new
  entry's distance, hence before all entries of equal or larger distance; then the last
  entry is dropped if the length exceeds \<open>k\<close>. Afterwards the list is again sorted
  ascending by distance and has length at most \<open>k\<close>.
\<close>

theorem insertResult_policy:
  assumes "sorted (map distance results)" and "int (length results) \<le> k"
  shows "(\<exists>j\<le>length results.
            (\<forall>i<j. distance (results ! i) < distance e) \<and>
            (\<forall>i. j \<le> i \<and> i < length results \<longrightarrow> distance e \<le> distance (results ! i)) \<and>
            insertResult' results e k =
              (if int (length results) + 1 > k then butlast (take j results @ e # drop j results)
               else take j results @ e # drop j results)) \<and>
         sorted (map distance (insertResult' results e k)) \<and>
         int (length (insertResult' results e k)) \<le> k"
proof (intro conjI)
  let ?j = "nat (scanInsertIndex results e (int (length results) - 1) + 1)"
  have "insertResult' results e k =
      (if int (length results) + 1 > k then butlast (take ?j results @ e # drop ?j results)
       else take ?j results @ e # drop ?j results)"
    using scan_position(1) [OF assms(1), of e]
    by (simp add: insertResult'_def Let_def splice0_def)
  with scan_position [OF assms(1), of e]
  show "\<exists>j\<le>length results.
            (\<forall>i<j. distance (results ! i) < distance e) \<and>
            (\<forall>i. j \<le> i \<and> i < length results \<longrightarrow> distance e \<le> distance (results ! i)) \<and>
            insertResult' results e k =
              (if int (length results) + 1 > k then butlast (take j results @ e # drop j results)
               else take j results @ e # drop j results)"
    by blast
  show "sorted (map distance (insertResult' results e k))"
    by (rule insertResult'_sorted [OF assms(1)])
  show "int (length (insertResult' results e k)) \<le> k"
    using assms(2) by (simp add: insertResult'_length [OF assms(1)])
qed

theorem insertResult_policy_witness:
  "insertResult'
     [\<lparr>node = KDTreeNode \<lparr>x = 1, y = 0\<rparr> \<lparr>minX = - 1, maxX = 1, minY = 0, maxY = 0\<rparr> Null Null,
       distance = 1\<rparr>]
     \<lparr>node = KDTreeNode \<lparr>x = - 1, y = 0\<rparr> \<lparr>minX = - 1, maxX = 1, minY = 0, maxY = 0\<rparr> Null Null,
      distance = 1\<rparr> 1
   = [\<lparr>node = KDTreeNode \<lparr>x = - 1, y = 0\<rparr> \<lparr>minX = - 1, maxX = 1, minY = 0, maxY = 0\<rparr> Null Null,
      distance = 1\<rparr>]"
proof -
  let ?a = "\<lparr>node = KDTreeNode \<lparr>x = 1, y = 0\<rparr> \<lparr>minX = - 1, maxX = 1, minY = 0, maxY = 0\<rparr> Null Null,
       distance = 1\<rparr>"
  let ?b = "\<lparr>node = KDTreeNode \<lparr>x = - 1, y = 0\<rparr> \<lparr>minX = - 1, maxX = 1, minY = 0, maxY = 0\<rparr> Null Null,
      distance = 1\<rparr>"
  have s: "sorted (map distance [?a])" by simp
  have l: "int (length [?a]) \<le> 1" by simp
  from insertResult_policy [OF s l, of ?b]
  obtain j where j: "j \<le> length [?a]" "\<forall>i<j. distance ([?a] ! i) < distance ?b"
    and r: "insertResult' [?a] ?b 1 =
              (if int (length [?a]) + 1 > 1 then butlast (take j [?a] @ ?b # drop j [?a])
               else take j [?a] @ ?b # drop j [?a])"
    by blast
  from j have "j = 0" by (cases j) auto
  with r show ?thesis by simp
qed

section \<open>A result bound below one\<close>

lemma insertResult'_nonpositive: "k < 1 \<Longrightarrow> insertResult' [] e k = []"
  by (simp add: insertResult'_def Let_def splice0_def scanInsertIndex.simps)

lemma search_nonpositive:
  "k < 1 \<Longrightarrow> n \<noteq> Null \<Longrightarrow>
   (meetsOpposite n searchCoord depth \<longrightarrow>
      getNearestNeighbours' n searchCoord depth [] k considered = Inl TypeError) \<and>
   (\<not> meetsOpposite n searchCoord depth \<longrightarrow>
      (\<exists>considered'. getNearestNeighbours' n searchCoord depth [] k considered
                        = Inr ([], considered')))"
proof (induction n arbitrary: depth considered)
  case Null
  then show ?case by simp
next
  case (KDTreeNode pt br lc rc)
  show ?case
  proof (cases "axisCoord (depth mod K) searchCoord < axisCoord (depth mod K) pt")
    case True
    with KDTreeNode.IH(1) [of "depth + 1" "pushConsidered considered pt"] KDTreeNode.prems(1)
    show ?thesis
      by (cases "lc = Null")
         (auto simp: getNearestNeighbours'.simps(2) Let_def insertResult'_nonpositive)
  next
    case False
    with KDTreeNode.IH(2) [of "depth + 1" "pushConsidered considered pt"] KDTreeNode.prems(1)
    show ?thesis
      by (cases "rc = Null")
         (auto simp: getNearestNeighbours'.simps(2) Let_def insertResult'_nonpositive)
  qed
qed

text \<open>
  Claim C3 as stated (a call with \<open>k < 1\<close> yields an InvalidArgument error and no ordinary
  result) fails: on the one-point tree the call with \<open>k = 0\<close> returns the empty sequence.
\<close>

theorem nonpositive_k_counterexample:
  "(0::int) < 1 \<and>
   getNearestNeighbours (snd (KDTree [\<lparr>x = 1, y = 0\<rparr>])) \<lparr>x = 1, y = 0\<rparr> 0 None = Inr ([], None)"
  by code_simp

text \<open>
  Claim C3, amended. The code does not check \<open>k\<close>. With \<open>k < 1\<close> every entry put into the
  result list is dropped again at once, so a call that returns returns the empty sequence,
  never a non-empty one; and it does return (the empty sequence) on every non-empty tree
  in which the search, going down the target children, meets no node that has an opposite
  child.
\<close>

theorem nonpositive_k_no_results:
  assumes "k < 1"
  shows "(\<forall>R considered. getNearestNeighbours t searchCoord k opt_consideredPoints
                           = Inr (R, considered) \<longrightarrow> R = []) \<and>
         (rootNode t \<noteq> Null \<and> \<not> meetsOpposite (rootNode t) searchCoord 0 \<longrightarrow>
            (\<exists>considered. getNearestNeighbours t searchCoord k opt_consideredPoints
                            = Inr ([], considered)))"
proof (cases "rootNode t = Null")
  case True
  then show ?thesis by (simp add: getNearestNeighbours_def)
next
  case False
  from search_nonpositive [OF assms False, of searchCoord 0 opt_consideredPoints] show ?thesis
    by (cases "meetsOpposite (rootNode t) searchCoord 0")
       (auto simp: getNearestNeighbours_def)
qed

theorem nonpositive_k_no_results_witness:
  "(0::int) < 1 \<and>
   rootNode (snd (KDTree [\<lparr>x = 1, y = 0\<rparr>])) \<noteq> Null \<and>
   \<not> meetsOpposite (rootNode (snd (KDTree [\<lparr>x = 1, y = 0\<rparr>]))) \<lparr>x = 4, y = 2\<rparr> 0 \<and>
   (\<exists>considered. getNearestNeighbours (snd (KDTree [\<lparr>x = 1, y = 0\<rparr>])) \<lparr>x = 4, y = 2\<rparr> 0 None
                    = Inr ([], considered))"
proof -
  have k: "(0::int) < 1" by simp
  have n: "rootNode (snd (KDTree [\<lparr>x = 1, y = 0\<rparr>])) \<noteq> Null" by code_simp
  have m: "\<not> meetsOpposite (rootNode (snd (KDTree [\<lparr>x = 1, y = 0\<rparr>]))) \<lparr>x = 4, y = 2\<rparr> 0"
    by code_simp
  from nonpositive_k_no_results
         [OF k, of "snd (KDTree [\<lparr>x = 1, y = 0\<rparr>])" "\<lparr>x = 4, y = 2\<rparr>" None] k n m
  show ?thesis by blast
qed

section \<open>Invariants established by construction\<close>

lemma axis_cases: "d mod K = AXIS_X \<or> d mod K = AXIS_Y"
  by (auto simp: consts_defs)

lemma set_sortPoints [simp]: "set (sortPoints axis points) = set points"
  by (simp add: sortPoints_def)

lemma mset_sortPoints [simp]: "mset (sortPoints axis points) = mset points"
  by (simp add: sortPoints_def)

lemma length_sortPoints [simp]: "length (sortPoints axis points) = length points"
  by (simp add: sortPoints_def)

lemma sorted_sortPoints: "sorted (map (axisCoord axis) (sortPoints axis points))"
  by (simp add: sortPoints_def)

lemma sortPoints_split:
  "points \<noteq> [] \<Longrightarrow>
   take (length points div 2) (sortPoints axis points) @
     sortPoints axis points ! (length points div 2) #
     drop (Suc (length points div 2)) (sortPoints axis points) = sortPoints axis points"
  by (simp add: id_take_nth_drop [symmetric])

lemma sortPoints_before_median:
  assumes "a \<in> set (take (length points div 2) (sortPoints axis points))"
  shows "axisCoord axis a \<le> axisCoord axis (sortPoints axis points ! (length points div 2))"
proof -
  from assms obtain i where i: "i < length points div 2" "a = sortPoints axis points ! i"
    by (auto simp: in_set_conv_nth)
  then have "i \<le> length points div 2" "length points div 2 < length (map (axisCoord axis) (sortPoints axis points))"
    by auto
  from sorted_nth_mono [OF sorted_sortPoints this] i show ?thesis by simp
qed

lemma sortPoints_after_median:
  assumes "a \<in> set (drop (Suc (length points div 2)) (sortPoints axis points))"
  shows "axisCoord axis (sortPoints axis points ! (length points div 2)) \<le> axisCoord axis a"
proof -
  from assms obtain i where "i < length points - Suc (length points div 2)"
      "a = sortPoints axis points ! (Suc (length points div 2) + i)"
    by (auto simp: in_set_conv_nth)
  then have i: "Suc (length points div 2) + i < length points"
      "a = sortPoints axis points ! (Suc (length points div 2) + i)"
    by simp_all
  then have "length points div 2 \<le> Suc (length points div 2) + i"
     "Suc (length points div 2) + i < length (map (axisCoord axis) (sortPoints axis points))"
    by auto
  from sorted_nth_mono [OF sorted_sortPoints this] i show ?thesis by simp
qed

lemma createKDTree'_Node:
  "points \<noteq> [] \<Longrightarrow>
   snd (createKDTree' points depth bounds) =
     KDTreeNode (sortPoints (depth mod K) points ! (length points div 2)) bounds
       (snd (createKDTree' (take (length points div 2) (sortPoints (depth mod K) points))
               (Suc depth)
               (leftChildBoundingRect (depth mod K)
                  (sortPoints (depth mod K) points ! (length points div 2)) bounds)))
       (snd (createKDTree' (drop (Suc (length points div 2)) (sortPoints (depth mod K) points))
               (Suc depth)
               (rightChildBoundingRect (depth mod K)
                  (sortPoints (depth mod K) points ! (length points div 2)) bounds)))"
  by (simp add: createKDTree'_snd Let_def)

lemma createKDTree'_Null_iff: "snd (createKDTree' points depth bounds) = Null \<longleftrightarrow> points = []"
  by (cases "points = []") (simp_all add: createKDTree'_Node)

lemma createKDTree'_rect:
  "points \<noteq> [] \<Longrightarrow> boundingRect (snd (createKDTree' points depth bounds)) = bounds"
  by (simp add: createKDTree'_Node)

lemma mset_nodePoints_createKDTree':
  "mset (nodePoints (snd (createKDTree' points depth bounds))) = mset points"
proof (induction points arbitrary: depth bounds rule: length_induct)
  case (1 points)
  show ?case
  proof (cases "points = []")
    case True
    then show ?thesis by simp
  next
    case False
    let ?s = "sortPoints (depth mod K) points"
    let ?m = "length points div 2"
    have "length (take ?m ?s) < length points" "length (drop (Suc ?m) ?s) < length points"
      using False by auto
    with 1 have "\<And>d b. mset (nodePoints (snd (createKDTree' (take ?m ?s) d b))) = mset (take ?m ?s)"
      "\<And>d b. mset (nodePoints (snd (createKDTree' (drop (Suc ?m) ?s) d b))) = mset (drop (Suc ?m) ?s)"
      by blast+
    then have "mset (nodePoints (snd (createKDTree' points depth bounds))) =
        mset (take ?m ?s @ ?s ! ?m # drop (Suc ?m) ?s)"
      by (simp add: createKDTree'_Node [OF False])
    also have "\<dots> = mset points"
      by (simp only: sortPoints_split [OF False] mset_sortPoints)
    finally show ?thesis .
  qed
qed

lemma set_nodePoints_createKDTree':
  "set (nodePoints (snd (createKDTree' points depth bounds))) = set points"
  using mset_nodePoints_createKDTree' [of points depth bounds] by (metis set_mset_mset)

lemma inside_leftChildBoundingRect:
  "insideRect bounds a \<Longrightarrow> axisCoord (d mod K) a \<le> axisCoord (d mod K) pt \<Longrightarrow>
   insideRect (leftChildBoundingRect (d mod K) pt bounds) a"
  using axis_cases [of d]
  by (auto simp: insideRect_def leftChildBoundingRect_def axisCoord_def AXIS_X_def AXIS_Y_def)

lemma inside_rightChildBoundingRect:
  "insideRect bounds a \<Longrightarrow> axisCoord (d mod K) pt \<le> axisCoord (d mod K) a \<Longrightarrow>
   insideRect (rightChildBoundingRect (d mod K) pt bounds) a"
  using axis_cases [of d]
  by (auto simp: insideRect_def rightChildBoundingRect_def axisCoord_def AXIS_X_def AXIS_Y_def)

lemma searchInvariant_createKDTree':
  "\<forall>a\<in>set points. insideRect bounds a \<Longrightarrow>
   searchInvariant (snd (createKDTree' points depth bounds)) depth"
proof (induction points arbitrary: depth bounds rule: length_induct)
  case (1 points)
  show ?case
  proof (cases "points = []")
    case True
    then show ?thesis by simp
  next
    case False
    let ?ax = "depth mod K"
    let ?s = "sortPoints ?ax points"
    let ?m = "length points div 2"
    let ?pt = "?s ! ?m"
    let ?lb = "leftChildBoundingRect ?ax ?pt bounds"
    let ?rb = "rightChildBoundingRect ?ax ?pt bounds"
    let ?lc = "snd (createKDTree' (take ?m ?s) (Suc depth) ?lb)"
    let ?rc = "snd (createKDTree' (drop (Suc ?m) ?s) (Suc depth) ?rb)"
    have len: "length (take ?m ?s) < length points" "length (drop (Suc ?m) ?s) < length points"
      using False by auto
    have "?pt \<in> set ?s" using False by (intro nth_mem) simp
    then have pt: "insideRect bounds ?pt" using "1.prems" by simp
    have l: "\<forall>a\<in>set (take ?m ?s). insideRect ?lb a"
    proof
      fix a assume a: "a \<in> set (take ?m ?s)"
      then have "a \<in> set points" by (auto dest: in_set_takeD)
      with "1.prems" a show "insideRect ?lb a"
        by (intro inside_leftChildBoundingRect sortPoints_before_median) auto
    qed
    have r: "\<forall>a\<in>set (drop (Suc ?m) ?s). insideRect ?rb a"
    proof
      fix a assume a: "a \<in> set (drop (Suc ?m) ?s)"
      then have "a \<in> set points" by (auto dest: in_set_dropD)
      with "1.prems" a show "insideRect ?rb a"
        by (intro inside_rightChildBoundingRect sortPoints_after_median) auto
    qed
    have "searchInvariant ?lc (Suc depth)" using 1 len(1) l by blast
    moreover have "searchInvariant ?rc (Suc depth)" using 1 len(2) r by blast
    moreover have "?lc \<noteq> Null \<longrightarrow> boundingRect ?lc = ?lb"
      by (simp add: createKDTree'_Null_iff createKDTree'_rect)
    moreover have "?rc \<noteq> Null \<longrightarrow> boundingRect ?rc = ?rb"
      by (simp add: createKDTree'_Null_iff createKDTree'_rect)
    ultimately show ?thesis
      using pt l r
      by (simp add: createKDTree'_Node [OF False] set_nodePoints_createKDTree')
  qed
qed

text \<open>The rectangle computed by the constructor contains every input point.\<close>

lemma insideRect_grow: "insideRect b a \<Longrightarrow> insideRect (growBoundingRect p b) a"
  by (auto simp: insideRect_def growBoundingRect_def)

lemma insideRect_grow_self: "insideRect (growBoundingRect a b) a"
  by (auto simp: insideRect_def growBoundingRect_def)

lemma insideRect_fold_grow: "insideRect b a \<Longrightarrow> insideRect (fold growBoundingRect ps b) a"
  by (induction ps arbitrary: b) (simp_all add: insideRect_grow)

lemma insideRect_fold_grow_mem:
  "a \<in> set ps \<Longrightarrow> insideRect (fold growBoundingRect ps b) a"
  by (induction ps arbitrary: b) (auto simp: insideRect_fold_grow insideRect_grow_self)

lemma rootNode_KDTree:
  "rootNode (snd (KDTree points)) =
     snd (createKDTree' points 0 (fold growBoundingRect points initialBoundingRect))"
  by (simp add: KDTree_def Let_def)

lemma searchInvariant_KDTree: "searchInvariant (rootNode (snd (KDTree points))) 0"
  by (simp add: rootNode_KDTree searchInvariant_createKDTree' insideRect_fold_grow_mem)



section \<open>The rectangles of a built tree\<close>

lemma leftChildBoundingRect_clip:
  "leftChildBoundingRect (d mod K) pt br = clipMax (d mod 2) (axisCoord (d mod 2) pt) br"
  using axis_cases [of d]
  by (auto simp: leftChildBoundingRect_def clipMax_def axisCoord_def consts_defs)

lemma rightChildBoundingRect_clip:
  "rightChildBoundingRect (d mod K) pt br = clipMin (d mod 2) (axisCoord (d mod 2) pt) br"
  using axis_cases [of d]
  by (auto simp: rightChildBoundingRect_def clipMin_def axisCoord_def consts_defs)

lemma containsRect_leftChildBoundingRect:
  "insideRect br pt \<Longrightarrow> containsRect br (leftChildBoundingRect axis pt br)"
  by (auto simp: insideRect_def containsRect_def leftChildBoundingRect_def)

lemma containsRect_rightChildBoundingRect:
  "insideRect br pt \<Longrightarrow> containsRect br (rightChildBoundingRect axis pt br)"
  by (auto simp: insideRect_def containsRect_def rightChildBoundingRect_def)

lemma searchInvariant_rectInvariant: "searchInvariant n d \<Longrightarrow> rectInvariant n d"
proof (induction n arbitrary: d)
  case Null
  then show ?case by simp
next
  case (KDTreeNode pt br lc rc)
  from KDTreeNode.prems have "rectInvariant lc (d + 1)" "rectInvariant rc (d + 1)"
    by (auto intro: KDTreeNode.IH)
  moreover from KDTreeNode.prems have "insideRect br pt"
    "lc \<noteq> Null \<longrightarrow> boundingRect lc = leftChildBoundingRect (d mod K) pt br"
    "rc \<noteq> Null \<longrightarrow> boundingRect rc = rightChildBoundingRect (d mod K) pt br"
    by auto
  ultimately show ?case
    using containsRect_leftChildBoundingRect [of br pt "d mod K"]
      containsRect_rightChildBoundingRect [of br pt "d mod K"]
      leftChildBoundingRect_clip [of d pt br] rightChildBoundingRect_clip [of d pt br]
    by auto
qed

text \<open>
  Claim C8. In every tree produced by construction, every node's rectangle contains the
  rectangle of each of its children (the four bound comparisons hold), and a child's
  rectangle equals the node's rectangle clipped on exactly one axis, the node's splitting
  axis (the node's depth modulo 2), at the coordinate of the node's point on that axis:
  the upper bound is clipped for the left child, the lower bound for the right child.
\<close>

theorem rect_invariant_built: "rectInvariant (rootNode (snd (KDTree points))) 0"
  by (rule searchInvariant_rectInvariant) (rule searchInvariant_KDTree)

theorem rect_invariant_built_witness:
  "leftChild (rootNode (snd (KDTree [\<lparr>x = 2, y = 5\<rparr>, \<lparr>x = 1, y = 7\<rparr>, \<lparr>x = 3, y = 4\<rparr>]))) \<noteq> Null \<and>
   rightChild (rootNode (snd (KDTree [\<lparr>x = 2, y = 5\<rparr>, \<lparr>x = 1, y = 7\<rparr>, \<lparr>x = 3, y = 4\<rparr>]))) \<noteq> Null \<and>
   rectInvariant (rootNode (snd (KDTree [\<lparr>x = 2, y = 5\<rparr>, \<lparr>x = 1, y = 7\<rparr>, \<lparr>x = 3, y = 4\<rparr>]))) 0"
proof -
  have "leftChild (rootNode (snd (KDTree [\<lparr>x = 2, y = 5\<rparr>, \<lparr>x = 1, y = 7\<rparr>, \<lparr>x = 3, y = 4\<rparr>]))) \<noteq> Null"
    by code_simp
  moreover have "rightChild (rootNode (snd (KDTree [\<lparr>x = 2, y = 5\<rparr>, \<lparr>x = 1, y = 7\<rparr>, \<lparr>x = 3, y = 4\<rparr>]))) \<noteq> Null"
    by code_simp
  ultimately show ?thesis
    using rect_invariant_built [of "[\<lparr>x = 2, y = 5\<rparr>, \<lparr>x = 1, y = 7\<rparr>, \<lparr>x = 3, y = 4\<rparr>]"] by blast
qed

section \<open>The root rectangle in general\<close>

text \<open>
  What the constructor computes for a non-empty input: the minima are capped above by
  \<open>2^31 - 1\<close> and the maxima capped below by \<open>-2^31\<close>. For inputs whose coordinates
  lie between these two values it is the bounding rectangle of the input.
\<close>

lemma Min_insert_min:
  fixes a :: real
  assumes "finite S"
  shows "Min (insert (min a c) S) = Min (insert a (insert c S))"
proof (cases "S = {}")
  case True
  then show ?thesis by (simp add: min.commute)
next
  case False
  with assms show ?thesis by (simp add: min.assoc)
qed

lemma Max_insert_max:
  fixes a :: real
  assumes "finite S"
  shows "Max (insert (max a c) S) = Max (insert a (insert c S))"
proof (cases "S = {}")
  case True
  then show ?thesis by (simp add: max.commute)
next
  case False
  with assms show ?thesis by (simp add: max.assoc)
qed

lemma fold_growBoundingRect:
  "minX (fold growBoundingRect ps b) = Min (insert (minX b) (x ` set ps)) \<and>
   maxX (fold growBoundingRect ps b) = Max (insert (maxX b) (x ` set ps)) \<and>
   minY (fold growBoundingRect ps b) = Min (insert (minY b) (y ` set ps)) \<and>
   maxY (fold growBoundingRect ps b) = Max (insert (maxY b) (y ` set ps))"
proof (induction ps arbitrary: b)
  case Nil
  then show ?case by simp
next
  case (Cons p ps)
  have g: "minX (growBoundingRect p b) = min (minX b) (x p)"
    "maxX (growBoundingRect p b) = max (maxX b) (x p)"
    "minY (growBoundingRect p b) = min (minY b) (y p)"
    "maxY (growBoundingRect p b) = max (maxY b) (y p)"
    by (simp_all add: growBoundingRect_def)
  have s: "x ` set (p # ps) = insert (x p) (x ` set ps)" "y ` set (p # ps) = insert (y p) (y ` set ps)"
    by simp_all
  have "fold growBoundingRect (p # ps) b = fold growBoundingRect ps (growBoundingRect p b)"
    by simp
  with Cons.IH [of "growBoundingRect p b"] show ?case
    by (simp only: g s Min_insert_min Max_insert_max finite_imageI finite_set)
qed

lemma root_rect_formula:
  assumes "points \<noteq> []"
  shows "boundingRect (rootNode (snd (KDTree points))) =
     \<lparr>minX = min (2 ^ 31 - 1) (Min (x ` set points)),
      maxX = max (- (2 ^ 31)) (Max (x ` set points)),
      minY = min (2 ^ 31 - 1) (Min (y ` set points)),
      maxY = max (- (2 ^ 31)) (Max (y ` set points))\<rparr>"
proof -
  have "boundingRect (rootNode (snd (KDTree points))) =
      fold growBoundingRect points initialBoundingRect"
    using assms by (simp add: rootNode_KDTree createKDTree'_rect)
  moreover have "x ` set points \<noteq> {}" "y ` set points \<noteq> {}" using assms by auto
  ultimately show ?thesis
    using fold_growBoundingRect [of points initialBoundingRect]
    by (simp add: initialBoundingRect_def rect.equality)
qed


lemma root_rect_in_range:
  assumes "points \<noteq> []"
    and "\<forall>p\<in>set points. - (2 ^ 31) \<le> x p \<and> x p \<le> 2 ^ 31 - 1 \<and>
                            - (2 ^ 31) \<le> y p \<and> y p \<le> 2 ^ 31 - 1"
  shows "boundingRect (rootNode (snd (KDTree points))) =
     \<lparr>minX = Min (x ` set points), maxX = Max (x ` set points),
      minY = Min (y ` set points), maxY = Max (y ` set points)\<rparr>"
proof -
  have ne: "x ` set points \<noteq> {}" "y ` set points \<noteq> {}" using assms(1) by auto
  have "Min (x ` set points) \<in> x ` set points" "Max (x ` set points) \<in> x ` set points"
    "Min (y ` set points) \<in> y ` set points" "Max (y ` set points) \<in> y ` set points"
    using ne by (auto intro!: Min_in Max_in)
  with assms(2) have "Min (x ` set points) \<le> 2 ^ 31 - 1" "- (2 ^ 31) \<le> Max (x ` set points)"
    "Min (y ` set points) \<le> 2 ^ 31 - 1" "- (2 ^ 31) \<le> Max (y ` set points)"
    by auto
  then show ?thesis
    by (simp only: root_rect_formula [OF assms(1)] min_absorb2 max_absorb2)
qed

section \<open>The first k elements of a sorted list\<close>









section \<open>The pruning bound\<close>











section \<open>The search\<close>

lemma map_distance_nodeResults:
  "map distance (nodeResults searchCoord n) = map (squaredDistance searchCoord) (nodePoints n)"
  by (induction n) (simp_all add: squaredDistance_def)


















section \<open>Agreement with the linear scan\<close>





section \<open>Querying at a stored point\<close>



section \<open>The decision to search the opposite child\<close>



end
